theory Spec2Isabelle
  imports Complex_Main
begin

section \<open>Python values\<close>

text \<open>
  Parameters, state variables and transition conditions are untyped in the source
  (\<^verbatim>\<open>dict\<close>, \<^verbatim>\<open>any\<close>). The values that can be stored are the scalars
  below. A float is represented by the number it denotes, so the model covers the finite
  floats; NaN and the infinities are not represented.
\<close>

datatype pyval = PNone | PBool bool | PInt int | PFloat real | PStr string

text \<open>The number a numeric value denotes; \<^verbatim>\<open>bool\<close> is a subclass of \<^verbatim>\<open>int\<close>.\<close>

fun num_of :: "pyval \<Rightarrow> real option" where
  "num_of (PBool b) = Some (if b then 1 else 0)"
| "num_of (PInt i) = Some (of_int i)"
| "num_of (PFloat r) = Some r"
| "num_of PNone = None"
| "num_of (PStr s) = None"

text \<open>Python's \<^verbatim>\<open>==\<close>: numbers compare by value across bool, int and float.\<close>

definition py_eq :: "pyval \<Rightarrow> pyval \<Rightarrow> bool" where
  "py_eq a b =
     (case (num_of a, num_of b) of
        (Some x, Some y) \<Rightarrow> x = y
      | (None, None) \<Rightarrow> a = b
      | _ \<Rightarrow> False)"

definition py_ne :: "pyval \<Rightarrow> pyval \<Rightarrow> bool" where
  "py_ne a b = (\<not> py_eq a b)"

text \<open>Order of strings: lexicographic on the character codes.\<close>

fun str_le :: "string \<Rightarrow> string \<Rightarrow> bool" where
  "str_le [] t = True"
| "str_le (a # s) [] = False"
| "str_le (a # s) (b # t) =
     ((of_char a :: nat) < of_char b \<or> (a = b \<and> str_le s t))"

text \<open>
  Python's \<^verbatim>\<open><=\<close>. Numbers compare with numbers and strings with strings; any other
  pair raises \<^verbatim>\<open>TypeError\<close>, which is the value \<open>None\<close> here.
\<close>

definition py_le :: "pyval \<Rightarrow> pyval \<Rightarrow> bool option" where
  "py_le a b =
     (case (num_of a, num_of b) of
        (Some x, Some y) \<Rightarrow> Some (x \<le> y)
      | (None, None) \<Rightarrow>
          (case (a, b) of (PStr s, PStr t) \<Rightarrow> Some (str_le s t) | _ \<Rightarrow> None)
      | _ \<Rightarrow> None)"

text \<open>
  The chained comparison \<^verbatim>\<open>min_val <= value <= max_val\<close>: the second comparison is
  evaluated only when the first one is true.
\<close>

definition in_range :: "pyval \<Rightarrow> pyval \<Rightarrow> pyval \<Rightarrow> bool option" where
  "in_range min_val v max_val =
     (case py_le min_val v of
        None \<Rightarrow> None
      | Some False \<Rightarrow> Some False
      | Some True \<Rightarrow> py_le v max_val)"

text \<open>The classes a \<^verbatim>\<open>parameter_types\<close> entry can name, and \<^verbatim>\<open>isinstance\<close>.\<close>

datatype pytype = T_bool | T_int | T_float | T_str

fun type_name :: "pytype \<Rightarrow> string" where
  "type_name T_bool = ''bool''"
| "type_name T_int = ''int''"
| "type_name T_float = ''float''"
| "type_name T_str = ''str''"

fun isinstance :: "pyval \<Rightarrow> pytype \<Rightarrow> bool" where
  "isinstance (PBool b) T_bool = True"
| "isinstance (PBool b) T_int = True"
| "isinstance (PInt i) T_int = True"
| "isinstance (PFloat r) T_float = True"
| "isinstance (PStr s) T_str = True"
| "isinstance v ty = False"

datatype py_error = TypeError

text \<open>
  What the code at a placeholder (\<^verbatim>\<open># Connection logic would go here\<close>,
  \<^verbatim>\<open># Command sending logic would go here\<close>, \<^verbatim>\<open># Command execution logic would go here\<close>)
  does inside its \<^verbatim>\<open>try\<close> block: it completes, or it raises an exception \<open>e\<close> with
  the given \<^verbatim>\<open>str(e)\<close>. The transport and the action are not part of the repository, so
  every operation takes this outcome as an argument.
\<close>

datatype outcome = Completed | Raised string

type_synonym params = "(string \<times> pyval) list"

section \<open>Mode (src/mode.py)\<close>

type_synonym observer = nat
type_synonym timestamp = real

record transition =
  to_state :: string
  conditions :: "(string \<times> pyval) list"

record history_entry =
  hist_from_state :: string
  hist_to_state :: string
  hist_timestamp :: timestamp

record mode =
  mode_id :: string
  mode_name :: string
  mode_description :: string
  allowed_commands :: "string list"
  required_commands :: "string list"
  state_variables :: "string \<rightharpoonup> pyval"
  transitions :: "string \<rightharpoonup> transition list"
  current_state :: string
  mode_observers :: "observer list"
  history :: "history_entry list"

text \<open>\<^verbatim>\<open>Mode.__init__\<close>\<close>

definition Mode_init :: "string \<Rightarrow> string \<Rightarrow> string \<Rightarrow> mode" where
  "Mode_init mid nm descr =
     \<lparr> mode_id = mid, mode_name = nm, mode_description = descr,
       allowed_commands = [], required_commands = [],
       state_variables = Map.empty, transitions = Map.empty,
       current_state = ''initial'', mode_observers = [], history = [] \<rparr>"

text \<open>
  The messages of \<^verbatim>\<open>can_transition_to\<close> are f-strings; each constructor is one of the
  four templates with the values it interpolates:
  \<^verbatim>\<open>"No transitions defined from state: {current_state}"\<close>,
  \<^verbatim>\<open>"Condition not met: {condition} = {value}"\<close>,
  \<^verbatim>\<open>"Transition allowed"\<close>,
  \<^verbatim>\<open>"No transition defined to state: {to_state}"\<close>.
\<close>

datatype transition_msg =
    No_transitions_from string
  | Condition_not_met string pyval
  | Transition_allowed
  | No_transition_to string

text \<open>
  The payload dictionaries passed to the observers:
  \<^verbatim>\<open>{"message": message}\<close>, \<^verbatim>\<open>{'from_state': _, 'to_state': _}\<close> and
  \<^verbatim>\<open>{'name': _, 'value': _}\<close>.
\<close>

datatype mode_data =
    Message_data transition_msg
  | State_data string string
  | Variable_data string pyval

text \<open>
  One call \<^verbatim>\<open>observer.on_mode_state_changed(self, event, data)\<close>: the observer, the mode
  as it is at the time of the call, the event and the payload. Observers are outside the
  repository; here, and for the device and the command, a callback is taken to return
  normally and to leave the object that notifies it alone, so a notification is recorded
  as an effect of the call that makes it.
\<close>

record mode_notification =
  mn_observer :: observer
  mn_mode :: mode
  mn_event :: string
  mn_data :: mode_data

text \<open>\<^verbatim>\<open>Mode.notify_observers\<close>: every observer is called, in subscription order.\<close>

definition mode_notify_observers :: "mode \<Rightarrow> string \<Rightarrow> mode_data \<Rightarrow> mode_notification list" where
  "mode_notify_observers m event data =
     map (\<lambda>ob. \<lparr> mn_observer = ob, mn_mode = m, mn_event = event, mn_data = data \<rparr>)
       (mode_observers m)"

text \<open>\<^verbatim>\<open>Mode.add_observer\<close> and \<^verbatim>\<open>Mode.remove_observer\<close>\<close>

definition mode_add_observer :: "mode \<Rightarrow> observer \<Rightarrow> mode" where
  "mode_add_observer m ob =
     (if ob \<notin> set (mode_observers m)
      then m\<lparr> mode_observers := mode_observers m @ [ob] \<rparr> else m)"

definition mode_remove_observer :: "mode \<Rightarrow> observer \<Rightarrow> mode" where
  "mode_remove_observer m ob =
     (if ob \<in> set (mode_observers m)
      then m\<lparr> mode_observers := remove1 ob (mode_observers m) \<rparr> else m)"



text \<open>\<^verbatim>\<open>Mode.is_command_allowed\<close>\<close>

definition is_command_allowed :: "mode \<Rightarrow> string \<Rightarrow> bool" where
  "is_command_allowed m command_id = (command_id \<in> set (allowed_commands m))"

text \<open>\<^verbatim>\<open>Mode.add_transition\<close>; \<^verbatim>\<open>conditions or {}\<close> turns \<^verbatim>\<open>None\<close> into the empty dict.\<close>

definition add_transition ::
  "mode \<Rightarrow> string \<Rightarrow> string \<Rightarrow> (string \<times> pyval) list option \<Rightarrow> mode" where
  "add_transition m from_st to_st conds =
     (let ts = (case transitions m from_st of None \<Rightarrow> [] | Some l \<Rightarrow> l);
          t = \<lparr> to_state = to_st,
                conditions = (case conds of None \<Rightarrow> [] | Some c \<Rightarrow> c) \<rparr>
      in m\<lparr> transitions := (transitions m)(from_st \<mapsto> ts @ [t]) \<rparr>)"

text \<open>
  The inner loop of \<^verbatim>\<open>can_transition_to\<close> over \<^verbatim>\<open>transition['conditions'].items()\<close>:
  the first condition whose variable is in \<^verbatim>\<open>state_variables\<close> with a different value
  is returned; a condition whose variable is not in \<^verbatim>\<open>state_variables\<close> is passed over.
\<close>

fun check_conditions :: "(string \<times> pyval) list \<Rightarrow> (string \<rightharpoonup> pyval) \<Rightarrow> (string \<times> pyval) option" where
  "check_conditions [] sv = None"
| "check_conditions ((condition, v) # rest) sv =
     (case sv condition of
        Some w \<Rightarrow> if py_ne w v then Some (condition, v) else check_conditions rest sv
      | None \<Rightarrow> check_conditions rest sv)"

text \<open>The outer loop of \<^verbatim>\<open>can_transition_to\<close> over the candidates from the current state.\<close>

fun scan_transitions ::
  "transition list \<Rightarrow> string \<Rightarrow> (string \<rightharpoonup> pyval) \<Rightarrow> bool \<times> transition_msg" where
  "scan_transitions [] to_st sv = (False, No_transition_to to_st)"
| "scan_transitions (t # ts) to_st sv =
     (if to_state t = to_st then
        (case check_conditions (conditions t) sv of
           Some (condition, v) \<Rightarrow> (False, Condition_not_met condition v)
         | None \<Rightarrow> (True, Transition_allowed))
      else scan_transitions ts to_st sv)"

text \<open>\<^verbatim>\<open>Mode.can_transition_to\<close>\<close>

definition can_transition_to :: "mode \<Rightarrow> string \<Rightarrow> bool \<times> transition_msg" where
  "can_transition_to m to_st =
     (case transitions m (current_state m) of
        None \<Rightarrow> (False, No_transitions_from (current_state m))
      | Some ts \<Rightarrow> scan_transitions ts to_st (state_variables m))"

text \<open>
  \<^verbatim>\<open>Mode.transition_to\<close>, with the value of \<^verbatim>\<open>time.time()\<close> as the argument \<open>now\<close>.
  The result is the returned boolean, the mode after the call and the observer calls made.
\<close>

definition transition_to :: "mode \<Rightarrow> string \<Rightarrow> timestamp \<Rightarrow> bool \<times> mode \<times> mode_notification list" where
  "transition_to m to_st now =
     (let (can_transition, message) = can_transition_to m to_st
      in if \<not> can_transition then
           (False, m, mode_notify_observers m ''transition_failed'' (Message_data message))
         else
           (let m1 = m\<lparr> history := history m @
                        [\<lparr> hist_from_state = current_state m, hist_to_state = to_st,
                           hist_timestamp = now \<rparr>] \<rparr>;
                m2 = m1\<lparr> current_state := to_st \<rparr>
            in (True, m2,
                mode_notify_observers m2 ''state_changed''
                  (State_data (current_state m2) to_st))))"

text \<open>\<^verbatim>\<open>Mode.set_state_variable\<close>\<close>

definition set_state_variable :: "mode \<Rightarrow> string \<Rightarrow> pyval \<Rightarrow> mode \<times> mode_notification list" where
  "set_state_variable m nm v =
     (let m1 = m\<lparr> state_variables := (state_variables m)(nm \<mapsto> v) \<rparr>
      in (m1, mode_notify_observers m1 ''variable_changed'' (Variable_data nm v)))"




text \<open>The mode of the spec's scenario, built with the operations of the class.\<close>

definition armed_mode :: mode where
  "armed_mode =
     add_transition (Mode_init ''m1'' ''Arming'' ''arming mode'') ''initial'' ''armed''
       (Some [(''safety_off'', PBool True)])"

text \<open>The same mode with an observer and the variable set.\<close>

definition ready_mode :: mode where
  "ready_mode =
     fst (set_state_variable (mode_add_observer armed_mode 7) ''safety_off'' (PBool True))"

text \<open>
  Two candidates to the same state: the first guarded, the second unguarded, and the
  variable set against the guard.
\<close>

definition first_match_mode :: mode where
  "first_match_mode =
     fst (set_state_variable (add_transition armed_mode ''initial'' ''armed'' None)
            ''safety_off'' (PBool False))"

section \<open>Device (src/device.py)\<close>

record command_entry =
  ce_command :: string
  ce_params :: "params option"
  ce_timestamp :: timestamp

record device =
  device_id :: string
  device_type :: string
  dev_name :: string
  ip_address :: string
  port :: int
  is_connected :: bool
  current_mode :: "string option"
  available_modes :: "string list"
  command_history :: "command_entry list"
  last_command_time :: "timestamp option"
  status :: string
  error_count :: int
  last_error :: "string option"
  connection_attempts :: int
  max_connection_attempts :: int
  reconnect_delay :: real
  last_heartbeat :: "timestamp option"
  heartbeat_interval :: real
  dev_observers :: "observer list"

text \<open>\<^verbatim>\<open>Device.__init__\<close>\<close>

definition Device_init :: "string \<Rightarrow> string \<Rightarrow> string \<Rightarrow> string \<Rightarrow> int \<Rightarrow> device" where
  "Device_init did dtype nm ip prt =
     \<lparr> device_id = did, device_type = dtype, dev_name = nm, ip_address = ip, port = prt,
       is_connected = False, current_mode = None, available_modes = [],
       command_history = [], last_command_time = None, status = ''disconnected'',
       error_count = 0, last_error = None, connection_attempts = 0,
       max_connection_attempts = 3, reconnect_delay = 5, last_heartbeat = None,
       heartbeat_interval = 30, dev_observers = [] \<rparr>"

text \<open>
  What a call does besides changing the device: it runs the code at the placeholder of
  its \<^verbatim>\<open>try\<close> block (the connection or the sending logic), and it calls
  \<^verbatim>\<open>observer.on_device_state_changed(self)\<close> with the device as it is at that time.
\<close>

datatype device_effect =
    Connection_logic
  | Sending_logic string "params option"
  | Device_notified observer device

text \<open>\<^verbatim>\<open>Device.add_observer\<close> and \<^verbatim>\<open>Device.notify_observers\<close>\<close>

definition device_add_observer :: "device \<Rightarrow> observer \<Rightarrow> device" where
  "device_add_observer d ob =
     (if ob \<notin> set (dev_observers d)
      then d\<lparr> dev_observers := dev_observers d @ [ob] \<rparr> else d)"

definition device_notify_observers :: "device \<Rightarrow> device_effect list" where
  "device_notify_observers d = map (\<lambda>ob. Device_notified ob d) (dev_observers d)"

text \<open>
  \<^verbatim>\<open>Device.connect\<close>, with the value of \<^verbatim>\<open>time.time()\<close> and the outcome of the
  connection logic as arguments. The result is the returned boolean, the device after the
  call and the effects of the call in order.
\<close>

definition connect :: "device \<Rightarrow> timestamp \<Rightarrow> outcome \<Rightarrow> bool \<times> device \<times> device_effect list" where
  "connect d now oc =
     (if connection_attempts d \<ge> max_connection_attempts d then
        (let d1 = d\<lparr> status := ''connection_failed'' \<rparr>
         in (False, d1, device_notify_observers d1))
      else
        (case oc of
           Completed \<Rightarrow>
             (let d1 = d\<lparr> is_connected := True, status := ''connected'',
                          connection_attempts := 0, last_heartbeat := Some now \<rparr>
              in (True, d1, Connection_logic # device_notify_observers d1))
         | Raised e \<Rightarrow>
             (let d1 = d\<lparr> connection_attempts := connection_attempts d + 1,
                          last_error := Some e, status := ''connection_error'' \<rparr>
              in (False, d1, Connection_logic # device_notify_observers d1))))"

text \<open>The device after a sequence of \<^verbatim>\<open>connect()\<close> calls, one per clock value and outcome.\<close>

fun connects :: "device \<Rightarrow> (timestamp \<times> outcome) list \<Rightarrow> device" where
  "connects d [] = d"
| "connects d ((now, oc) # rest) = connects (fst (snd (connect d now oc))) rest"

text \<open>\<^verbatim>\<open>Device.disconnect\<close>\<close>

definition disconnect :: "device \<Rightarrow> device \<times> device_effect list" where
  "disconnect d =
     (let d1 = d\<lparr> is_connected := False, status := ''disconnected'', current_mode := None \<rparr>
      in (d1, device_notify_observers d1))"

text \<open>
  \<^verbatim>\<open>Device.send_command\<close>. The clock is read twice, for the history entry and for
  \<^verbatim>\<open>last_command_time\<close>.
\<close>

definition send_command ::
  "device \<Rightarrow> string \<Rightarrow> params option \<Rightarrow> timestamp \<Rightarrow> timestamp \<Rightarrow> outcome \<Rightarrow>
   bool \<times> device \<times> device_effect list" where
  "send_command d command ps t_entry t_last oc =
     (if \<not> is_connected d then
        (let d1 = d\<lparr> status := ''not_connected'' \<rparr>
         in (False, d1, device_notify_observers d1))
      else
        (case oc of
           Completed \<Rightarrow>
             (let d1 = d\<lparr> command_history := command_history d @
                            [\<lparr> ce_command = command, ce_params = ps,
                               ce_timestamp = t_entry \<rparr>],
                          last_command_time := Some t_last,
                          status := ''command_sent'' \<rparr>
              in (True, d1, Sending_logic command ps # device_notify_observers d1))
         | Raised e \<Rightarrow>
             (let d1 = d\<lparr> error_count := error_count d + 1, last_error := Some e,
                          status := ''command_error'' \<rparr>
              in (False, d1, Sending_logic command ps # device_notify_observers d1))))"

text \<open>A fresh device with one observer, and the same device once connected.\<close>

definition probe_device :: device where
  "probe_device =
     device_add_observer (Device_init ''dev1'' ''tracker'' ''Tracker'' ''10.0.0.2'' 9000) 4"

definition online_device :: device where
  "online_device = fst (snd (connect probe_device 100 Completed))"

section \<open>Command (src/command.py)\<close>

record command =
  command_id :: string
  cmd_name :: string
  cmd_description :: string
  parameters :: params
  required_parameters :: "string list"
  parameter_types :: "string \<rightharpoonup> pytype"
  parameter_ranges :: "string \<rightharpoonup> pyval \<times> pyval"
  execution_timeout :: real
  retry_count :: int
  retry_delay :: real
  cmd_observers :: "observer list"

text \<open>\<^verbatim>\<open>Command.__init__\<close>; \<^verbatim>\<open>parameters or {}\<close> turns \<^verbatim>\<open>None\<close> into the empty dict.\<close>

definition Command_init :: "string \<Rightarrow> string \<Rightarrow> string \<Rightarrow> params option \<Rightarrow> command" where
  "Command_init cid nm descr ps =
     \<lparr> command_id = cid, cmd_name = nm, cmd_description = descr,
       parameters = (case ps of None \<Rightarrow> [] | Some p \<Rightarrow> p),
       required_parameters = [], parameter_types = Map.empty,
       parameter_ranges = Map.empty, execution_timeout = 5, retry_count = 3,
       retry_delay = 1, cmd_observers = [] \<rparr>"

text \<open>
  The messages of \<^verbatim>\<open>validate_parameters\<close>, one constructor per f-string template with
  the values it interpolates:
  \<^verbatim>\<open>"Missing required parameter: {param}"\<close>,
  \<^verbatim>\<open>"Invalid type for parameter {param}: expected {expected_type.__name__}"\<close>,
  \<^verbatim>\<open>"Parameter {param} out of range: {min_val} <= {value} <= {max_val}"\<close>,
  \<^verbatim>\<open>"Parameters valid"\<close>.
\<close>

datatype validation_msg =
    Missing_required string
  | Invalid_type string string
  | Out_of_range string pyval pyval pyval
  | Parameters_valid

text \<open>
  The three loops of \<^verbatim>\<open>validate_parameters\<close>. A parameter dict is the list of its items
  in iteration order; each loop returns at the first item that fails its check.
\<close>

fun check_required :: "string list \<Rightarrow> params \<Rightarrow> string option" where
  "check_required [] ps = None"
| "check_required (param # rest) ps =
     (if param \<notin> fst ` set ps then Some param else check_required rest ps)"

fun check_types :: "params \<Rightarrow> (string \<rightharpoonup> pytype) \<Rightarrow> (string \<times> pytype) option" where
  "check_types [] tys = None"
| "check_types ((param, v) # rest) tys =
     (case tys param of
        Some expected_type \<Rightarrow>
          if \<not> isinstance v expected_type then Some (param, expected_type)
          else check_types rest tys
      | None \<Rightarrow> check_types rest tys)"

fun check_ranges ::
  "params \<Rightarrow> (string \<rightharpoonup> pyval \<times> pyval) \<Rightarrow>
   py_error + (string \<times> pyval \<times> pyval \<times> pyval) option" where
  "check_ranges [] rs = Inr None"
| "check_ranges ((param, v) # rest) rs =
     (case rs param of
        Some (min_val, max_val) \<Rightarrow>
          (case in_range min_val v max_val of
             None \<Rightarrow> Inl TypeError
           | Some inside \<Rightarrow>
               if \<not> inside then Inr (Some (param, min_val, v, max_val))
               else check_ranges rest rs)
      | None \<Rightarrow> check_ranges rest rs)"

text \<open>\<^verbatim>\<open>Command.validate_parameters\<close>\<close>

definition validate_parameters :: "command \<Rightarrow> params \<Rightarrow> py_error + bool \<times> validation_msg" where
  "validate_parameters c ps =
     (case check_required (required_parameters c) ps of
        Some param \<Rightarrow> Inr (False, Missing_required param)
      | None \<Rightarrow>
          (case check_types ps (parameter_types c) of
             Some (param, expected_type) \<Rightarrow>
               Inr (False, Invalid_type param (type_name expected_type))
           | None \<Rightarrow>
               (case check_ranges ps (parameter_ranges c) of
                  Inl e \<Rightarrow> Inl e
                | Inr (Some (param, min_val, v, max_val)) \<Rightarrow>
                    Inr (False, Out_of_range param min_val v max_val)
                | Inr None \<Rightarrow> Inr (True, Parameters_valid))))"

text \<open>The result dictionaries of \<^verbatim>\<open>execute\<close>.\<close>

record success_result =
  sr_command_id :: string
  sr_device_id :: string
  sr_parameters :: "params option"
  sr_timestamp :: timestamp
  sr_attempt :: int

record error_result =
  er_error :: string
  er_command_id :: string
  er_device_id :: string
  er_parameters :: "params option"
  er_timestamp :: timestamp
  er_attempts :: int

datatype exec_payload =
    Validation_failure validation_msg
  | Success_payload success_result
  | Error_payload error_result

text \<open>
  What \<^verbatim>\<open>execute\<close> does besides returning: it runs the command execution logic of an
  attempt (the loop variable \<^verbatim>\<open>attempt\<close> counts from 0), it sleeps, and it calls
  \<^verbatim>\<open>observer.on_command_executed(self, status, result)\<close>.
\<close>

datatype exec_effect =
    Execution_logic int
  | Slept real
  | Command_notified observer command string exec_payload

definition command_add_observer :: "command \<Rightarrow> observer \<Rightarrow> command" where
  "command_add_observer c ob =
     (if ob \<notin> set (cmd_observers c)
      then c\<lparr> cmd_observers := cmd_observers c @ [ob] \<rparr> else c)"

definition command_notify_observers :: "command \<Rightarrow> string \<Rightarrow> exec_payload \<Rightarrow> exec_effect list" where
  "command_notify_observers c st result =
     map (\<lambda>ob. Command_notified ob c st result) (cmd_observers c)"

text \<open>
  The retry loop of \<^verbatim>\<open>execute\<close> over the remaining values of \<^verbatim>\<open>range(self.retry_count)\<close>.
  \<open>action attempt\<close> is the outcome of the execution logic in that attempt and
  \<open>clock attempt\<close> the value of \<^verbatim>\<open>time.time()\<close> there. When the loop ends without a
  \<^verbatim>\<open>return\<close> the method returns \<^verbatim>\<open>None\<close>.
\<close>

fun run_attempts ::
  "command \<Rightarrow> device \<Rightarrow> params option \<Rightarrow> (int \<Rightarrow> outcome) \<Rightarrow> (int \<Rightarrow> timestamp) \<Rightarrow>
   int list \<Rightarrow> (bool \<times> exec_payload) option \<times> exec_effect list" where
  "run_attempts c dev ps action clock [] = (None, [])"
| "run_attempts c dev ps action clock (attempt # rest) =
     (case action attempt of
        Completed \<Rightarrow>
          (let result = Success_payload
                 \<lparr> sr_command_id = command_id c, sr_device_id = device_id dev,
                   sr_parameters = ps, sr_timestamp = clock attempt,
                   sr_attempt = attempt + 1 \<rparr>
           in (Some (True, result),
               Execution_logic attempt # command_notify_observers c ''success'' result))
      | Raised e \<Rightarrow>
          (if attempt < retry_count c - 1 then
             (let (r, effs) = run_attempts c dev ps action clock rest
              in (r, Execution_logic attempt # Slept (retry_delay c) # effs))
           else
             (let error_result = Error_payload
                    \<lparr> er_error = e, er_command_id = command_id c,
                      er_device_id = device_id dev, er_parameters = ps,
                      er_timestamp = clock attempt, er_attempts = attempt + 1 \<rparr>
              in (Some (False, error_result),
                  Execution_logic attempt #
                  command_notify_observers c ''error'' error_result))))"

text \<open>
  \<^verbatim>\<open>Command.execute\<close>. The result is the returned pair (or \<^verbatim>\<open>None\<close>), the command and
  the device after the call, and the effects of the call in order; an exception of
  \<^verbatim>\<open>validate_parameters\<close> leaves the method. The method assigns to no attribute of the
  command or of the device.
\<close>

definition execute ::
  "command \<Rightarrow> device \<Rightarrow> params option \<Rightarrow> (int \<Rightarrow> outcome) \<Rightarrow> (int \<Rightarrow> timestamp) \<Rightarrow>
   py_error + (bool \<times> exec_payload) option \<times> command \<times> device \<times> exec_effect list" where
  "execute c dev ps action clock =
     (case validate_parameters c (case ps of None \<Rightarrow> [] | Some p \<Rightarrow> p) of
        Inl e \<Rightarrow> Inl e
      | Inr (is_valid, error_msg) \<Rightarrow>
          if \<not> is_valid then
            Inr (Some (False, Validation_failure error_msg), c, dev,
                 command_notify_observers c ''validation_error''
                   (Validation_failure error_msg))
          else
            (let (r, effs) = run_attempts c dev ps action clock [0..retry_count c - 1]
             in Inr (r, c, dev, effs)))"

text \<open>The command of the spec's scenario, with one observer.\<close>

definition level_command :: command where
  "level_command =
     (command_add_observer (Command_init ''set_level'' ''Set level'' ''sets the level'' None) 5)
       \<lparr> required_parameters := [''value''],
         parameter_ranges := [''value'' \<mapsto> (PInt 0, PInt 1)] \<rparr>"

text \<open>A command with two ranged parameters and no declared types.\<close>

definition pair_command :: command where
  "pair_command =
     (Command_init ''move'' ''Move'' ''moves'' None)
       \<lparr> parameter_ranges := [''a'' \<mapsto> (PInt 0, PInt 1), ''b'' \<mapsto> (PInt 0, PInt 1)] \<rparr>"

text \<open>
  The three failures the specification names for a supplied item \<open>(param, value)\<close>,
  in its words, to compare \<open>validate_parameters\<close> with: a required parameter is missing
  from the supplied ones, the runtime type of the value mismatches the declared
  \<open>parameter_types\<close> entry, and the value lies outside the declared inclusive range.
  \<open>range_comparable\<close> says that the range comparison of an item is defined.
\<close>

definition missing_in :: "params \<Rightarrow> string \<Rightarrow> bool" where
  "missing_in ps param = (param \<notin> fst ` set ps)"

definition type_mismatch :: "command \<Rightarrow> string \<times> pyval \<Rightarrow> bool" where
  "type_mismatch c = (\<lambda>(param, v).
     case parameter_types c param of
       None \<Rightarrow> False
     | Some expected_type \<Rightarrow> \<not> isinstance v expected_type)"

definition range_violation :: "command \<Rightarrow> string \<times> pyval \<Rightarrow> bool" where
  "range_violation c = (\<lambda>(param, v).
     case parameter_ranges c param of
       None \<Rightarrow> False
     | Some (min_val, max_val) \<Rightarrow> in_range min_val v max_val = Some False)"

definition range_comparable :: "command \<Rightarrow> string \<times> pyval \<Rightarrow> bool" where
  "range_comparable c = (\<lambda>(param, v).
     case parameter_ranges c param of
       None \<Rightarrow> True
     | Some (min_val, max_val) \<Rightarrow> in_range min_val v max_val \<noteq> None)"

text \<open>
  The effects of the attempts \<open>i\<close> to \<open>k\<close> of \<open>execute\<close> when each of them fails and
  is retried: the execution logic of the attempt, then one sleep of \<open>retry_delay\<close>.
\<close>

definition retried_attempts :: "command \<Rightarrow> int \<Rightarrow> int \<Rightarrow> exec_effect list" where
  "retried_attempts c i k =
     concat (map (\<lambda>j. [Execution_logic j, Slept (retry_delay c)]) [i..k])"

section \<open>Facts about the scenario objects\<close>

lemma armed_mode_fields:
  "current_state armed_mode = ''initial''"
  "transitions armed_mode ''initial'' =
     Some [\<lparr> to_state = ''armed'', conditions = [(''safety_off'', PBool True)] \<rparr>]"
  "state_variables armed_mode = Map.empty"
  "mode_observers armed_mode = []"
  "history armed_mode = []"
  by (simp_all add: armed_mode_def add_transition_def Mode_init_def)

lemma ready_mode_fields:
  "current_state ready_mode = ''initial''"
  "transitions ready_mode ''initial'' =
     Some [\<lparr> to_state = ''armed'', conditions = [(''safety_off'', PBool True)] \<rparr>]"
  "state_variables ready_mode ''safety_off'' = Some (PBool True)"
  "mode_observers ready_mode = [7]"
  "history ready_mode = []"
  by (simp_all add: ready_mode_def set_state_variable_def mode_add_observer_def Let_def
      armed_mode_fields)

lemma first_match_mode_fields:
  "current_state first_match_mode = ''initial''"
  "transitions first_match_mode ''initial'' =
     Some [\<lparr> to_state = ''armed'', conditions = [(''safety_off'', PBool True)] \<rparr>,
           \<lparr> to_state = ''armed'', conditions = [] \<rparr>]"
  "state_variables first_match_mode ''safety_off'' = Some (PBool False)"
  "mode_observers first_match_mode = []"
  "history first_match_mode = []"
  by (simp_all add: first_match_mode_def set_state_variable_def add_transition_def Let_def
      armed_mode_fields)

lemma probe_device_fields:
  "is_connected probe_device = False"
  "connection_attempts probe_device = 0"
  "max_connection_attempts probe_device = 3"
  "dev_observers probe_device = [4]"
  "status probe_device = ''disconnected''"
  "command_history probe_device = []"
  by (simp_all add: probe_device_def device_add_observer_def Device_init_def)

lemma online_device_fields:
  "is_connected online_device = True"
  "dev_observers online_device = [4]"
  "command_history online_device = []"
  "device_id online_device = ''dev1''"
  by (simp_all add: online_device_def connect_def Let_def probe_device_fields
      probe_device_def device_add_observer_def Device_init_def)

lemma level_command_fields:
  "required_parameters level_command = [''value'']"
  "parameter_types level_command = Map.empty"
  "parameter_ranges level_command = [''value'' \<mapsto> (PInt 0, PInt 1)]"
  "cmd_observers level_command = [5]"
  "retry_count level_command = 3"
  "retry_delay level_command = 1"
  "command_id level_command = ''set_level''"
  by (simp_all add: level_command_def Command_init_def command_add_observer_def)

lemma pair_command_fields:
  "required_parameters pair_command = []"
  "parameter_types pair_command = Map.empty"
  "parameter_ranges pair_command =
     [''a'' \<mapsto> (PInt 0, PInt 1), ''b'' \<mapsto> (PInt 0, PInt 1)]"
  by (simp_all add: pair_command_def Command_init_def)

lemma level_command_rejects:
  "validate_parameters level_command [(''value'', PFloat 1.5)] =
     Inr (False, Out_of_range ''value'' (PInt 0) (PFloat 1.5) (PInt 1))"
  by (simp add: validate_parameters_def level_command_fields in_range_def py_le_def)

lemma level_command_accepts:
  "validate_parameters level_command [(''value'', PFloat 0.5)] =
     Inr (True, Parameters_valid)"
  by (simp add: validate_parameters_def level_command_fields in_range_def py_le_def)

section \<open>Mode: guards and transitions\<close>

lemma check_conditions_absent:
  "\<forall>(c, v) \<in> set cs. sv c = None \<Longrightarrow> check_conditions cs sv = None"
  by (induction cs) auto

lemma check_conditions_present:
  "check_conditions (filter (\<lambda>(c, v). sv c \<noteq> None) cs) sv = check_conditions cs sv"
  by (induction cs) (auto split: option.splits)

lemma check_conditions_Some:
  "check_conditions cs sv = Some (c, v) \<Longrightarrow>
   (c, v) \<in> set cs \<and> (\<exists>w. sv c = Some w \<and> py_ne w v)"
  by (induction cs) (auto split: option.splits if_splits)

text \<open>The loop over the candidates stops at the first one whose target matches.\<close>

lemma scan_transitions_find:
  "scan_transitions ts to_st sv =
     (case find (\<lambda>t. to_state t = to_st) ts of
        None \<Rightarrow> (False, No_transition_to to_st)
      | Some t \<Rightarrow>
          (case check_conditions (conditions t) sv of
             Some (condition, v) \<Rightarrow> (False, Condition_not_met condition v)
           | None \<Rightarrow> (True, Transition_allowed)))"
  by (induction ts) auto

lemma find_first:
  "\<forall>p \<in> set pre. \<not> P p \<Longrightarrow> P t \<Longrightarrow> find P (pre @ t # post) = Some t"
  by (induction pre) auto

lemma can_transition_to_fails_iff:
  "\<not> fst (can_transition_to m to_st) \<longleftrightarrow>
     (transitions m (current_state m) = None \<or>
      (\<exists>ts. transitions m (current_state m) = Some ts \<and>
         (find (\<lambda>t. to_state t = to_st) ts = None \<or>
          (\<exists>t cv. find (\<lambda>t. to_state t = to_st) ts = Some t \<and>
             check_conditions (conditions t) (state_variables m) = Some cv))))"
  by (auto simp: can_transition_to_def scan_transitions_find split: option.splits)

lemma transition_to_fail:
  "\<not> fst (can_transition_to m to_st) \<Longrightarrow>
   transition_to m to_st now =
     (False, m, mode_notify_observers m ''transition_failed''
                  (Message_data (snd (can_transition_to m to_st))))"
  by (cases "can_transition_to m to_st") (simp add: transition_to_def)

lemma transition_to_ok:
  "fst (can_transition_to m to_st) \<Longrightarrow>
   transition_to m to_st now =
     (True,
      m\<lparr> history := history m @
           [\<lparr> hist_from_state = current_state m, hist_to_state = to_st,
              hist_timestamp = now \<rparr>],
         current_state := to_st \<rparr>,
      map (\<lambda>ob. \<lparr> mn_observer = ob,
                  mn_mode = m\<lparr> history := history m @
                     [\<lparr> hist_from_state = current_state m, hist_to_state = to_st,
                        hist_timestamp = now \<rparr>],
                     current_state := to_st \<rparr>,
                  mn_event = ''state_changed'',
                  mn_data = State_data to_st to_st \<rparr>) (mode_observers m))"
  by (cases "can_transition_to m to_st")
    (simp add: transition_to_def mode_notify_observers_def Let_def)

lemma ready_mode_can: "can_transition_to ready_mode ''armed'' = (True, Transition_allowed)"
  by (simp add: can_transition_to_def ready_mode_fields py_ne_def py_eq_def)

lemma armed_mode_can: "can_transition_to armed_mode ''armed'' = (True, Transition_allowed)"
  by (simp add: can_transition_to_def armed_mode_fields)

lemma first_match_mode_can:
  "can_transition_to first_match_mode ''armed'' =
     (False, Condition_not_met ''safety_off'' (PBool True))"
  by (simp add: can_transition_to_def first_match_mode_fields py_ne_def py_eq_def)

text \<open>
  C1. The claim is that a condition on a variable missing from \<open>state_variables\<close> makes
  \<open>can_transition_to\<close> fail with "Condition not met". The guard
  \<^verbatim>\<open>if condition in self.state_variables\<close> does the opposite: in the scenario of the
  claim (one candidate to "armed" guarded by \<open>safety_off\<close>, no state variable set) the
  result is true, "Transition allowed".
\<close>

theorem can_transition_to_missing_variable_counterexample:
  "current_state armed_mode = ''initial'' \<and>
   transitions armed_mode ''initial'' =
     Some [\<lparr> to_state = ''armed'', conditions = [(''safety_off'', PBool True)] \<rparr>] \<and>
   state_variables armed_mode = Map.empty \<and>
   can_transition_to armed_mode ''armed'' = (True, Transition_allowed)"
  by (simp add: armed_mode_fields armed_mode_can)

text \<open>
  C1, as the code has it. Let \<open>t\<close> be the first candidate from the current state whose
  target is \<open>to_st\<close>. If every condition of \<open>t\<close> is on a variable that is not in
  \<open>state_variables\<close>, \<open>can_transition_to\<close> returns true with "Transition allowed": a
  missing variable is passed over. Whenever the result is false with
  "Condition not met: c = v", the pair is a condition of \<open>t\<close> whose variable is present
  with a value different from \<open>v\<close>. In general the result is the one \<open>t\<close> gives
  with its conditions on missing variables left out.
\<close>

theorem can_transition_to_missing_variable_passes:
  assumes "transitions m (current_state m) = Some ts"
    and "find (\<lambda>t. to_state t = to_st) ts = Some t"
  shows "((\<forall>(c, v) \<in> set (conditions t). state_variables m c = None) \<longrightarrow>
            can_transition_to m to_st = (True, Transition_allowed)) \<and>
         (\<forall>c v. can_transition_to m to_st = (False, Condition_not_met c v) \<longrightarrow>
            (c, v) \<in> set (conditions t) \<and>
            (\<exists>w. state_variables m c = Some w \<and> py_ne w v)) \<and>
         can_transition_to m to_st =
           (case check_conditions
                   (filter (\<lambda>(c, v). state_variables m c \<noteq> None) (conditions t))
                   (state_variables m) of
              Some (c, v) \<Rightarrow> (False, Condition_not_met c v)
            | None \<Rightarrow> (True, Transition_allowed))"
proof -
  have r: "can_transition_to m to_st =
      (case check_conditions (conditions t) (state_variables m) of
         Some (c, v) \<Rightarrow> (False, Condition_not_met c v)
       | None \<Rightarrow> (True, Transition_allowed))"
    using assms by (simp add: can_transition_to_def scan_transitions_find)
  have a: "(\<forall>(c, v) \<in> set (conditions t). state_variables m c = None) \<longrightarrow>
      can_transition_to m to_st = (True, Transition_allowed)"
    by (simp add: r check_conditions_absent)
  have b: "\<forall>c v. can_transition_to m to_st = (False, Condition_not_met c v) \<longrightarrow>
      (c, v) \<in> set (conditions t) \<and> (\<exists>w. state_variables m c = Some w \<and> py_ne w v)"
  proof (intro allI impI)
    fix c v
    assume "can_transition_to m to_st = (False, Condition_not_met c v)"
    with r have "check_conditions (conditions t) (state_variables m) = Some (c, v)"
      by (cases "check_conditions (conditions t) (state_variables m)") auto
    then show "(c, v) \<in> set (conditions t) \<and>
        (\<exists>w. state_variables m c = Some w \<and> py_ne w v)"
      by (rule check_conditions_Some)
  qed
  have c: "can_transition_to m to_st =
           (case check_conditions
                   (filter (\<lambda>(c, v). state_variables m c \<noteq> None) (conditions t))
                   (state_variables m) of
              Some (c, v) \<Rightarrow> (False, Condition_not_met c v)
            | None \<Rightarrow> (True, Transition_allowed))"
    by (simp only: r check_conditions_present)
  show ?thesis by (rule conjI a b c)+
qed

theorem can_transition_to_missing_variable_passes_witness:
  "transitions armed_mode (current_state armed_mode) =
     Some [\<lparr> to_state = ''armed'', conditions = [(''safety_off'', PBool True)] \<rparr>] \<and>
   state_variables armed_mode ''safety_off'' = None \<and>
   can_transition_to armed_mode ''armed'' = (True, Transition_allowed) \<and>
   can_transition_to first_match_mode ''armed'' =
     (False, Condition_not_met ''safety_off'' (PBool True)) \<and>
   (\<exists>w. state_variables first_match_mode ''safety_off'' = Some w \<and> py_ne w (PBool True))"
proof -
  let ?t = "\<lparr> to_state = ''armed'', conditions = [(''safety_off'', PBool True)] \<rparr>"
  let ?u = "\<lparr> to_state = ''armed'', conditions = [] \<rparr>"
  have a1: "transitions armed_mode (current_state armed_mode) = Some [?t]"
    by (simp add: armed_mode_fields)
  have a2: "find (\<lambda>t. to_state t = ''armed'') [?t] = Some ?t"
    by simp
  have a3: "\<forall>(c, v) \<in> set [(''safety_off'', PBool True)]. state_variables armed_mode c = None"
    by (simp add: armed_mode_fields)
  have b1: "transitions first_match_mode (current_state first_match_mode) = Some [?t, ?u]"
    by (simp add: first_match_mode_fields)
  have b2: "find (\<lambda>t. to_state t = ''armed'') [?t, ?u] = Some ?t"
    by simp
  have b3: "can_transition_to first_match_mode ''armed'' =
      (False, Condition_not_met ''safety_off'' (PBool True))"
    by (rule first_match_mode_can)
  have a5: "\<forall>(c, v) \<in> set (conditions ?t). state_variables armed_mode c = None"
    by (simp add: armed_mode_fields)
  have r1: "can_transition_to armed_mode ''armed'' = (True, Transition_allowed)"
    by (rule can_transition_to_missing_variable_passes
          [OF a1 a2, THEN conjunct1, THEN mp, OF a5])
  have "(''safety_off'', PBool True) \<in> set (conditions ?t) \<and>
      (\<exists>w. state_variables first_match_mode ''safety_off'' = Some w \<and> py_ne w (PBool True))"
    by (rule can_transition_to_missing_variable_passes
          [OF b1 b2, THEN conjunct2, THEN conjunct1, THEN spec, THEN spec, THEN mp, OF b3])
  then have r2: "\<exists>w. state_variables first_match_mode ''safety_off'' = Some w \<and>
      py_ne w (PBool True)"
    by (rule conjunct2)
  have a4: "state_variables armed_mode ''safety_off'' = None"
    by (simp add: armed_mode_fields)
  show ?thesis by (rule conjI a1 a4 r1 b3 r2)+
qed

text \<open>
  C9. \<open>can_transition_to\<close> decides on the first candidate from the current state whose
  target is \<open>to_st\<close>, in declaration order: whatever candidates are declared after it,
  the result is that of this candidate's conditions. In particular it is false with
  "Condition not met" when they fail, also when a later candidate to the same state has
  all its conditions satisfied.
\<close>

theorem can_transition_to_first_match:
  assumes "transitions m (current_state m) = Some (pre @ t # post)"
    and "\<forall>p \<in> set pre. to_state p \<noteq> to_st"
    and "to_state t = to_st"
  shows "can_transition_to m to_st =
           (case check_conditions (conditions t) (state_variables m) of
              Some (c, v) \<Rightarrow> (False, Condition_not_met c v)
            | None \<Rightarrow> (True, Transition_allowed))"
  using assms by (simp add: can_transition_to_def scan_transitions_find find_first)

theorem can_transition_to_first_match_witness:
  "transitions first_match_mode (current_state first_match_mode) =
     Some ([] @ \<lparr> to_state = ''armed'', conditions = [(''safety_off'', PBool True)] \<rparr> #
             [\<lparr> to_state = ''armed'', conditions = [] \<rparr>]) \<and>
   check_conditions [] (state_variables first_match_mode) = None \<and>
   can_transition_to first_match_mode ''armed'' =
     (False, Condition_not_met ''safety_off'' (PBool True))"
proof -
  let ?t = "\<lparr> to_state = ''armed'', conditions = [(''safety_off'', PBool True)] \<rparr>"
  let ?u = "\<lparr> to_state = ''armed'', conditions = [] \<rparr>"
  have h1: "transitions first_match_mode (current_state first_match_mode) =
      Some ([] @ ?t # [?u])"
    by (simp add: first_match_mode_fields)
  have h2: "\<forall>p \<in> set []. to_state p \<noteq> ''armed''"
    by simp
  have h3: "to_state ?t = ''armed''"
    by simp
  have "can_transition_to first_match_mode ''armed'' =
      (case check_conditions (conditions ?t) (state_variables first_match_mode) of
         Some (c, v) \<Rightarrow> (False, Condition_not_met c v)
       | None \<Rightarrow> (True, Transition_allowed))"
    by (rule can_transition_to_first_match [OF h1 h2 h3])
  then have "can_transition_to first_match_mode ''armed'' =
      (False, Condition_not_met ''safety_off'' (PBool True))"
    by (simp add: first_match_mode_fields py_ne_def py_eq_def)
  with h1 show ?thesis by simp
qed

text \<open>
  C8. \<open>transition_to\<close> returns what \<open>can_transition_to\<close> reports. That report is a
  failure exactly when the current state has no transitions, or no candidate targets
  \<open>to_st\<close>, or the first candidate that does has an unmet condition. On failure the mode
  is unchanged (so are its current state and its history) and the only observer calls are
  "transition_failed" with the message; on success the mode differs from the old one in
  that the current state is \<open>to_st\<close> and one entry is appended to the history.
\<close>

theorem transition_to_follows_can_transition_to:
  "fst (transition_to m to_st now) = fst (can_transition_to m to_st) \<and>
   (\<not> fst (can_transition_to m to_st) \<longleftrightarrow>
     (transitions m (current_state m) = None \<or>
      (\<exists>ts. transitions m (current_state m) = Some ts \<and>
         (find (\<lambda>t. to_state t = to_st) ts = None \<or>
          (\<exists>t cv. find (\<lambda>t. to_state t = to_st) ts = Some t \<and>
             check_conditions (conditions t) (state_variables m) = Some cv))))) \<and>
   (\<not> fst (can_transition_to m to_st) \<longrightarrow>
      transition_to m to_st now =
        (False, m,
         map (\<lambda>ob. \<lparr> mn_observer = ob, mn_mode = m, mn_event = ''transition_failed'',
                     mn_data = Message_data (snd (can_transition_to m to_st)) \<rparr>)
           (mode_observers m))) \<and>
   (fst (can_transition_to m to_st) \<longrightarrow>
      (\<exists>e ns. transition_to m to_st now =
         (True, m\<lparr> history := history m @ [e], current_state := to_st \<rparr>, ns) \<and>
         (\<forall>n \<in> set ns. mn_event n = ''state_changed'')))"
proof (cases "fst (can_transition_to m to_st)")
  case True
  let ?e = "\<lparr> hist_from_state = current_state m, hist_to_state = to_st,
              hist_timestamp = now \<rparr>"
  have "\<exists>e ns. transition_to m to_st now =
         (True, m\<lparr> history := history m @ [e], current_state := to_st \<rparr>, ns) \<and>
         (\<forall>n \<in> set ns. mn_event n = ''state_changed'')"
    by (rule exI [of _ ?e]) (simp add: transition_to_ok [OF True])
  then show ?thesis
    using True can_transition_to_fails_iff [of m to_st]
    by (simp add: transition_to_ok [OF True])
next
  case False
  show ?thesis
    using False can_transition_to_fails_iff [of m to_st]
    by (simp add: transition_to_fail [OF False] mode_notify_observers_def)
qed

theorem transition_to_follows_can_transition_to_witness:
  "\<not> fst (can_transition_to ready_mode ''nowhere'') \<and>
   transition_to ready_mode ''nowhere'' 5 =
     (False, ready_mode,
      [\<lparr> mn_observer = 7, mn_mode = ready_mode, mn_event = ''transition_failed'',
         mn_data = Message_data (No_transition_to ''nowhere'') \<rparr>]) \<and>
   fst (can_transition_to ready_mode ''armed'') \<and>
   fst (transition_to ready_mode ''armed'' 5) \<and>
   (\<exists>e ns. transition_to ready_mode ''armed'' 5 =
      (True, ready_mode\<lparr> history := history ready_mode @ [e], current_state := ''armed'' \<rparr>,
       ns))"
proof -
  have f: "can_transition_to ready_mode ''nowhere'' = (False, No_transition_to ''nowhere'')"
    by (simp add: can_transition_to_def ready_mode_fields)
  have nf: "\<not> fst (can_transition_to ready_mode ''nowhere'')"
    by (simp add: f)
  have ok: "fst (can_transition_to ready_mode ''armed'')"
    by (simp add: ready_mode_can)
  have r1: "transition_to ready_mode ''nowhere'' 5 =
     (False, ready_mode,
      [\<lparr> mn_observer = 7, mn_mode = ready_mode, mn_event = ''transition_failed'',
         mn_data = Message_data (No_transition_to ''nowhere'') \<rparr>])"
    using transition_to_follows_can_transition_to [of ready_mode "''nowhere''" 5] nf
    by (simp add: f ready_mode_fields)
  have r2: "fst (transition_to ready_mode ''armed'' 5) \<and>
      (\<exists>e ns. transition_to ready_mode ''armed'' 5 =
        (True, ready_mode\<lparr> history := history ready_mode @ [e], current_state := ''armed'' \<rparr>,
         ns))"
    using transition_to_follows_can_transition_to [of ready_mode "''armed''" 5] ok
    by blast
  show ?thesis using nf r1 ok r2 by simp
qed

text \<open>
  C3. On a successful \<open>transition_to\<close> the entry appended to the history has
  \<open>from_state\<close> equal to the current state before the call, and every observer receives
  one "state_changed" call whose payload has \<open>from_state\<close> and \<open>to_state\<close> both equal
  to \<open>to_st\<close>: the payload is built from \<open>current_state\<close> after the assignment.
\<close>

theorem transition_to_history_and_payload:
  assumes "fst (can_transition_to m to_st)"
  shows "\<exists>m' ns. transition_to m to_st now = (True, m', ns) \<and>
           history m' = history m @
             [\<lparr> hist_from_state = current_state m, hist_to_state = to_st,
                hist_timestamp = now \<rparr>] \<and>
           current_state m' = to_st \<and>
           ns = map (\<lambda>ob. \<lparr> mn_observer = ob, mn_mode = m', mn_event = ''state_changed'',
                            mn_data = State_data to_st to_st \<rparr>) (mode_observers m)"
  using assms by (simp add: transition_to_ok)

theorem transition_to_history_and_payload_witness:
  "fst (can_transition_to ready_mode ''armed'') \<and>
   (\<exists>m'. transition_to ready_mode ''armed'' 5 =
      (True, m', [\<lparr> mn_observer = 7, mn_mode = m', mn_event = ''state_changed'',
                    mn_data = State_data ''armed'' ''armed'' \<rparr>]) \<and>
      history m' = [\<lparr> hist_from_state = ''initial'', hist_to_state = ''armed'',
                       hist_timestamp = 5 \<rparr>] \<and>
      current_state m' = ''armed'')"
proof -
  have ok: "fst (can_transition_to ready_mode ''armed'')"
    by (simp add: ready_mode_can)
  show ?thesis
    using transition_to_history_and_payload [OF ok, of 5] ok
    by (simp add: ready_mode_fields)
qed

section \<open>Mode: allowed and required commands\<close>





section \<open>Device: connection budget and sending\<close>

lemma connect_raised:
  "connection_attempts d < max_connection_attempts d \<Longrightarrow>
   fst (snd (connect d now (Raised e))) =
     d\<lparr> connection_attempts := connection_attempts d + 1, last_error := Some e,
        status := ''connection_error'' \<rparr>"
  by (simp add: connect_def Let_def)

text \<open>
  A run of failing \<open>connect()\<close> calls within the budget counts each call and touches
  nothing but the counter, the last error and the status.
\<close>

lemma connects_failing:
  "\<forall>(now, oc) \<in> set calls. oc \<noteq> Completed \<Longrightarrow>
   connection_attempts d + int (length calls) \<le> max_connection_attempts d \<Longrightarrow>
   connection_attempts (connects d calls) = connection_attempts d + int (length calls) \<and>
   is_connected (connects d calls) = is_connected d \<and>
   max_connection_attempts (connects d calls) = max_connection_attempts d \<and>
   dev_observers (connects d calls) = dev_observers d \<and>
   command_history (connects d calls) = command_history d \<and>
   (calls \<noteq> [] \<longrightarrow> status (connects d calls) = ''connection_error'')"
proof (induction calls arbitrary: d)
  case Nil
  then show ?case by simp
next
  case (Cons call calls)
  obtain now oc where call: "call = (now, oc)" by (cases call)
  with Cons.prems obtain e where oc: "oc = Raised e" by (cases oc) auto
  let ?d1 = "d\<lparr> connection_attempts := connection_attempts d + 1, last_error := Some e,
        status := ''connection_error'' \<rparr>"
  have lt: "connection_attempts d < max_connection_attempts d"
    using Cons.prems(2) by simp
  have step: "connects d (call # calls) = connects ?d1 calls"
    by (simp add: call oc connect_raised [OF lt])
  have "\<forall>(now, oc) \<in> set calls. oc \<noteq> Completed"
    using Cons.prems(1) by simp
  moreover have "connection_attempts ?d1 + int (length calls) \<le> max_connection_attempts ?d1"
    using Cons.prems(2) by simp
  ultimately have IH:
    "connection_attempts (connects ?d1 calls) = connection_attempts ?d1 + int (length calls) \<and>
     is_connected (connects ?d1 calls) = is_connected ?d1 \<and>
     max_connection_attempts (connects ?d1 calls) = max_connection_attempts ?d1 \<and>
     dev_observers (connects ?d1 calls) = dev_observers ?d1 \<and>
     command_history (connects ?d1 calls) = command_history ?d1 \<and>
     (calls \<noteq> [] \<longrightarrow> status (connects ?d1 calls) = ''connection_error'')"
    by (rule Cons.IH)
  show ?case
  proof (cases calls)
    case Nil
    then show ?thesis unfolding step by simp
  next
    case (Cons a list)
    then show ?thesis unfolding step using IH by simp
  qed
qed

lemma connect_exhausted:
  "connection_attempts d \<ge> max_connection_attempts d \<Longrightarrow>
   connect d now oc =
     (False, d\<lparr> status := ''connection_failed'' \<rparr>,
      map (\<lambda>ob. Device_notified ob (d\<lparr> status := ''connection_failed'' \<rparr>)) (dev_observers d))"
  by (simp add: connect_def device_notify_observers_def Let_def)

text \<open>
  C2. The claim is that after \<open>max_connection_attempts\<close> failing \<open>connect()\<close> calls on a
  fresh device the status is "connection_failed". Each failing call sets
  "connection_error"; "connection_failed" is set only by a call that finds the budget
  already used. On a fresh device (budget 3), after three failing calls the status is
  "connection_error".
\<close>

theorem connect_budget_status_counterexample:
  "max_connection_attempts (Device_init ''dev1'' ''tracker'' ''Tracker'' ''10.0.0.2'' 9000) = 3 \<and>
   status (connects (Device_init ''dev1'' ''tracker'' ''Tracker'' ''10.0.0.2'' 9000)
     [(1, Raised ''timeout''), (2, Raised ''timeout''), (3, Raised ''timeout'')]) =
     ''connection_error'' \<and>
   status (connects (Device_init ''dev1'' ''tracker'' ''Tracker'' ''10.0.0.2'' 9000)
     [(1, Raised ''timeout''), (2, Raised ''timeout''), (3, Raised ''timeout'')]) \<noteq>
     ''connection_failed''"
  by (simp add: Device_init_def connect_def Let_def device_notify_observers_def)

text \<open>
  C2, as the code has it. Take a device that is not connected, has used none of its
  budget and has a positive \<open>max_connection_attempts\<close> (a fresh device is one), and call
  \<open>connect()\<close> exactly \<open>max_connection_attempts\<close> times with the connection logic
  failing every time. Then the status is "connection_error", \<open>is_connected\<close> is false
  and \<open>connection_attempts\<close> equals \<open>max_connection_attempts\<close>. A further call,
  whatever the connection logic would do, does not run it: it returns false and changes
  only the status, to "connection_failed", notifying each observer once.
\<close>

theorem connect_budget_exhausted:
  assumes "connection_attempts d = 0" and "\<not> is_connected d"
    and "0 < max_connection_attempts d"
    and "int (length calls) = max_connection_attempts d"
    and "\<forall>(now, oc) \<in> set calls. oc \<noteq> Completed"
  shows "status (connects d calls) = ''connection_error'' \<and>
         \<not> is_connected (connects d calls) \<and>
         connection_attempts (connects d calls) = max_connection_attempts d \<and>
         (\<forall>now oc. connect (connects d calls) now oc =
            (False, (connects d calls)\<lparr> status := ''connection_failed'' \<rparr>,
             map (\<lambda>ob. Device_notified ob
                    ((connects d calls)\<lparr> status := ''connection_failed'' \<rparr>))
               (dev_observers d)))"
proof -
  have le: "connection_attempts d + int (length calls) \<le> max_connection_attempts d"
    using assms(1,4) by simp
  have ne: "calls \<noteq> []"
    using assms(3,4) by auto
  note f = connects_failing [OF assms(5) le]
  have ex: "connection_attempts (connects d calls) \<ge> max_connection_attempts (connects d calls)"
    using f assms(1,4) by simp
  show ?thesis
    using f ne assms(1,2,4) by (simp add: connect_exhausted [OF ex])
qed

theorem connect_budget_exhausted_witness:
  "connection_attempts probe_device = 0 \<and> \<not> is_connected probe_device \<and>
   max_connection_attempts probe_device = 3 \<and>
   status (connects probe_device
     [(1, Raised ''timeout''), (2, Raised ''refused''), (3, Raised ''timeout'')]) =
     ''connection_error'' \<and>
   connection_attempts (connects probe_device
     [(1, Raised ''timeout''), (2, Raised ''refused''), (3, Raised ''timeout'')]) = 3 \<and>
   connect (connects probe_device
     [(1, Raised ''timeout''), (2, Raised ''refused''), (3, Raised ''timeout'')]) 4 Completed =
     (False,
      (connects probe_device
        [(1, Raised ''timeout''), (2, Raised ''refused''), (3, Raised ''timeout'')])
        \<lparr> status := ''connection_failed'' \<rparr>,
      [Device_notified 4
        ((connects probe_device
           [(1, Raised ''timeout''), (2, Raised ''refused''), (3, Raised ''timeout'')])
           \<lparr> status := ''connection_failed'' \<rparr>)])"
proof -
  let ?calls = "[(1::real, Raised ''timeout''), (2, Raised ''refused''), (3, Raised ''timeout'')]"
  have h1: "connection_attempts probe_device = 0"
    by (simp add: probe_device_fields)
  have h2: "\<not> is_connected probe_device"
    by (simp add: probe_device_fields)
  have h3: "0 < max_connection_attempts probe_device"
    by (simp add: probe_device_fields)
  have h4: "int (length ?calls) = max_connection_attempts probe_device"
    by (simp add: probe_device_fields)
  have h5: "\<forall>(now, oc) \<in> set ?calls. oc \<noteq> Completed"
    by simp
  have m: "max_connection_attempts probe_device = 3"
    by (simp add: probe_device_fields)
  note t = connect_budget_exhausted [OF h1 h2 h3 h4 h5]
  have c1: "status (connects probe_device ?calls) = ''connection_error''"
    using t by blast
  have c2: "connection_attempts (connects probe_device ?calls) = 3"
    using t m by simp
  have "connect (connects probe_device ?calls) 4 Completed =
     (False, (connects probe_device ?calls)\<lparr> status := ''connection_failed'' \<rparr>,
      map (\<lambda>ob. Device_notified ob
             ((connects probe_device ?calls)\<lparr> status := ''connection_failed'' \<rparr>))
        (dev_observers probe_device))"
    using t by blast
  then have c3: "connect (connects probe_device ?calls) 4 Completed =
     (False, (connects probe_device ?calls)\<lparr> status := ''connection_failed'' \<rparr>,
      [Device_notified 4
        ((connects probe_device ?calls)\<lparr> status := ''connection_failed'' \<rparr>)])"
    by (simp only: probe_device_fields list.map)
  show ?thesis by (rule conjI h1 h2 m c1 c2 c3)+
qed

text \<open>
  C7. \<open>send_command\<close> looks at \<open>is_connected\<close> and at nothing else of the device to
  decide whether to send. When it is false, the sending logic is not run, whatever it
  would do: the call returns false and changes only the status, to "not_connected", so
  \<open>command_history\<close>, \<open>last_command_time\<close> and \<open>error_count\<close> are unchanged. When it
  is true, the call runs the \<^verbatim>\<open>try\<close> block, which in the source has no statement that
  can fail (the sending logic is a comment): it appends the one entry
  \<open>{command, params, timestamp}\<close> to \<open>command_history\<close>, sets \<open>last_command_time\<close>
  and the status "command_sent", changes nothing else, and returns true.
\<close>

theorem send_command_gated_by_is_connected:
  "(\<not> is_connected d \<longrightarrow>
      send_command d command ps t_entry t_last oc =
        (False, d\<lparr> status := ''not_connected'' \<rparr>,
         map (\<lambda>ob. Device_notified ob (d\<lparr> status := ''not_connected'' \<rparr>))
           (dev_observers d))) \<and>
   (is_connected d \<longrightarrow>
      send_command d command ps t_entry t_last Completed =
        (True,
         d\<lparr> command_history := command_history d @
              [\<lparr> ce_command = command, ce_params = ps, ce_timestamp = t_entry \<rparr>],
            last_command_time := Some t_last, status := ''command_sent'' \<rparr>,
         Sending_logic command ps #
         map (\<lambda>ob. Device_notified ob
                (d\<lparr> command_history := command_history d @
                     [\<lparr> ce_command = command, ce_params = ps, ce_timestamp = t_entry \<rparr>],
                   last_command_time := Some t_last, status := ''command_sent'' \<rparr>))
           (dev_observers d)))"
  by (simp add: send_command_def device_notify_observers_def Let_def)

theorem send_command_gated_by_is_connected_witness:
  "\<not> is_connected probe_device \<and>
   send_command probe_device ''move'' None 7 8 Completed =
     (False, probe_device\<lparr> status := ''not_connected'' \<rparr>,
      [Device_notified 4 (probe_device\<lparr> status := ''not_connected'' \<rparr>)]) \<and>
   is_connected online_device \<and>
   fst (send_command online_device ''move'' None 7 8 Completed) \<and>
   command_history (fst (snd (send_command online_device ''move'' None 7 8 Completed))) =
     [\<lparr> ce_command = ''move'', ce_params = None, ce_timestamp = 7 \<rparr>]"
proof -
  have n: "\<not> is_connected probe_device"
    by (simp add: probe_device_fields)
  have y: "is_connected online_device"
    by (simp add: online_device_fields)
  have r1: "send_command probe_device ''move'' None 7 8 Completed =
     (False, probe_device\<lparr> status := ''not_connected'' \<rparr>,
      [Device_notified 4 (probe_device\<lparr> status := ''not_connected'' \<rparr>)])"
    using send_command_gated_by_is_connected [of probe_device "''move''" None 7 8 Completed] n
    by (simp add: probe_device_fields)
  have r2: "fst (send_command online_device ''move'' None 7 8 Completed) \<and>
     command_history (fst (snd (send_command online_device ''move'' None 7 8 Completed))) =
       [\<lparr> ce_command = ''move'', ce_params = None, ce_timestamp = 7 \<rparr>]"
    using send_command_gated_by_is_connected [of online_device "''move''" None 7 8 Completed] y
    by (simp add: online_device_fields)
  show ?thesis using n y r1 r2 by blast
qed

section \<open>Command: validation\<close>

lemma find_None_Ball: "find P xs = None \<longleftrightarrow> (\<forall>x \<in> set xs. \<not> P x)"
  by (induction xs) auto

lemma find_Some_mem: "find P xs = Some x \<Longrightarrow> x \<in> set xs \<and> P x"
  by (induction xs) (auto split: if_splits)

lemma check_required_find:
  "check_required req ps = find (missing_in ps) req"
  by (induction req) (auto simp: missing_in_def)

lemma check_types_None:
  "check_types ps (parameter_types c) = None \<longleftrightarrow> find (type_mismatch c) ps = None"
  by (induction ps) (auto simp: type_mismatch_def split: option.splits)

lemma check_types_Some:
  "check_types ps (parameter_types c) = Some (param, ty) \<Longrightarrow>
   \<exists>v. find (type_mismatch c) ps = Some (param, v) \<and> parameter_types c param = Some ty"
  by (induction ps) (auto simp: type_mismatch_def split: option.splits if_splits)

lemma check_ranges_passed:
  "check_ranges ps (parameter_ranges c) = Inr None \<Longrightarrow>
   find (range_violation c) ps = None"
  by (induction ps)
    (auto simp: range_violation_def split: option.splits if_splits)

lemma check_ranges_violation:
  "check_ranges ps (parameter_ranges c) = Inr (Some (param, min_val, v, max_val)) \<Longrightarrow>
   find (range_violation c) ps = Some (param, v) \<and>
   parameter_ranges c param = Some (min_val, max_val)"
  by (induction ps)
    (auto simp: range_violation_def split: option.splits if_splits)

lemma check_ranges_raises:
  "check_ranges ps (parameter_ranges c) = Inl e \<Longrightarrow>
   \<exists>pv \<in> set ps. \<not> range_comparable c pv"
  by (induction ps)
    (auto simp: range_comparable_def split: option.splits if_splits)

text \<open>The result of \<open>validate_parameters\<close>, stage by stage.\<close>

lemma validate_missing:
  "find (missing_in ps) (required_parameters c) = Some param \<Longrightarrow>
   validate_parameters c ps = Inr (False, Missing_required param)"
  by (simp add: validate_parameters_def check_required_find)

lemma validate_mismatch:
  assumes "find (missing_in ps) (required_parameters c) = None"
    and "find (type_mismatch c) ps = Some (param, v)"
  shows "\<exists>ty. parameter_types c param = Some ty \<and>
           validate_parameters c ps = Inr (False, Invalid_type param (type_name ty))"
proof (cases "check_types ps (parameter_types c)")
  case None
  with assms(2) show ?thesis by (simp add: check_types_None)
next
  case (Some r)
  obtain p ty where r: "r = (p, ty)" by (cases r)
  from check_types_Some [OF Some [unfolded r]] assms(2)
  have "p = param" and "parameter_types c param = Some ty" by auto
  then show ?thesis
    using assms(1) Some r by (simp add: validate_parameters_def check_required_find)
qed

lemma validate_ranges:
  assumes "find (missing_in ps) (required_parameters c) = None"
    and "find (type_mismatch c) ps = None"
  shows "validate_parameters c ps =
           (case check_ranges ps (parameter_ranges c) of
              Inl e \<Rightarrow> Inl e
            | Inr (Some (param, min_val, v, max_val)) \<Rightarrow>
                Inr (False, Out_of_range param min_val v max_val)
            | Inr None \<Rightarrow> Inr (True, Parameters_valid))"
proof -
  from assms(2) have "check_types ps (parameter_types c) = None"
    by (simp add: check_types_None)
  with assms(1) show ?thesis
    by (simp add: validate_parameters_def check_required_find)
qed

text \<open>
  C4. The claim is that \<open>validate_parameters\<close> returns \<open>ok = false\<close> exactly when a
  required parameter is missing, a declared type is mismatched or a declared range is
  violated. The range check compares the value with its bounds whatever its type is, so
  for a command with ranges on \<open>a\<close> and \<open>b\<close> and no declared types, the parameters
  \<open>{a: "x", b: 5}\<close> have \<open>b\<close> outside its range \<open>[0, 1]\<close> and yet the call returns
  nothing: the comparison \<^verbatim>\<open>0 <= "x"\<close> raises \<^verbatim>\<open>TypeError\<close>.
\<close>

theorem validate_parameters_raises_counterexample:
  "required_parameters pair_command = [] \<and>
   parameter_types pair_command = Map.empty \<and>
   parameter_ranges pair_command ''b'' = Some (PInt 0, PInt 1) \<and>
   in_range (PInt 0) (PInt 5) (PInt 1) = Some False \<and>
   range_violation pair_command (''b'', PInt 5) \<and>
   validate_parameters pair_command [(''a'', PStr ''x''), (''b'', PInt 5)] = Inl TypeError"
  by (simp add: validate_parameters_def pair_command_fields range_violation_def
      in_range_def py_le_def)

text \<open>
  C4, as the code has it. Whenever \<open>validate_parameters\<close> returns \<open>(ok, msg)\<close>:
  \<open>ok\<close> is false exactly when a required parameter is missing, or a supplied parameter
  mismatches its declared type, or a supplied parameter lies outside its declared
  inclusive range; the checks are decided in that order, so the message is that of the
  first missing required parameter in declaration order if there is one, else that of
  the first supplied parameter with a type mismatch if there is one, else that of the
  first supplied parameter outside its range. It returns whenever every supplied
  parameter with a declared range can be compared with its bounds; it raises only when
  no required parameter is missing, no type is mismatched and some supplied parameter
  cannot be compared with its bounds.
\<close>

theorem validate_parameters_checks:
  "(\<forall>ok msg. validate_parameters c ps = Inr (ok, msg) \<longrightarrow>
      (\<not> ok \<longleftrightarrow>
         (\<exists>param \<in> set (required_parameters c). missing_in ps param) \<or>
         (\<exists>pv \<in> set ps. type_mismatch c pv) \<or>
         (\<exists>pv \<in> set ps. range_violation c pv)) \<and>
      (\<forall>param. find (missing_in ps) (required_parameters c) = Some param \<longrightarrow>
         msg = Missing_required param) \<and>
      (find (missing_in ps) (required_parameters c) = None \<longrightarrow>
         (\<forall>param v. find (type_mismatch c) ps = Some (param, v) \<longrightarrow>
            (\<exists>ty. parameter_types c param = Some ty \<and>
                  msg = Invalid_type param (type_name ty)))) \<and>
      (find (missing_in ps) (required_parameters c) = None \<and>
       find (type_mismatch c) ps = None \<longrightarrow>
         (\<forall>param v. find (range_violation c) ps = Some (param, v) \<longrightarrow>
            (\<exists>min_val max_val. parameter_ranges c param = Some (min_val, max_val) \<and>
                  msg = Out_of_range param min_val v max_val)))) \<and>
   ((\<forall>pv \<in> set ps. range_comparable c pv) \<longrightarrow>
      (\<exists>ok msg. validate_parameters c ps = Inr (ok, msg))) \<and>
   (\<forall>e. validate_parameters c ps = Inl e \<longrightarrow>
      find (missing_in ps) (required_parameters c) = None \<and>
      find (type_mismatch c) ps = None \<and>
      (\<exists>pv \<in> set ps. \<not> range_comparable c pv))"
proof (cases "find (missing_in ps) (required_parameters c)")
  case (Some param)
  from find_Some_mem [OF Some]
  have "\<exists>param \<in> set (required_parameters c). missing_in ps param" by blast
  then show ?thesis
    by (auto simp: validate_missing [OF Some] Some)
next
  case None
  note no_missing = None
  then have nm: "\<not> (\<exists>param \<in> set (required_parameters c). missing_in ps param)"
    by (simp add: find_None_Ball)
  show ?thesis
  proof (cases "find (type_mismatch c) ps")
    case (Some pv)
    obtain param v where pv: "pv = (param, v)" by (cases pv)
    from validate_mismatch [OF no_missing Some [unfolded pv]]
    obtain ty where ty: "parameter_types c param = Some ty"
      and val: "validate_parameters c ps = Inr (False, Invalid_type param (type_name ty))"
      by blast
    from find_Some_mem [OF Some] have "\<exists>pv \<in> set ps. type_mismatch c pv" by blast
    then show ?thesis
      by (auto simp: val no_missing Some pv ty)
  next
    case None
    note no_mismatch = None
    then have nt: "\<not> (\<exists>pv \<in> set ps. type_mismatch c pv)"
      by (simp add: find_None_Ball)
    note val = validate_ranges [OF no_missing no_mismatch]
    show ?thesis
    proof (cases "check_ranges ps (parameter_ranges c)")
      case (Inl e)
      from check_ranges_raises [OF Inl]
      have "\<exists>pv \<in> set ps. \<not> range_comparable c pv" .
      then show ?thesis
        using no_missing no_mismatch by (auto simp: val Inl)
    next
      case (Inr r)
      show ?thesis
      proof (cases r)
        case None
        from check_ranges_passed [OF Inr [unfolded None]]
        have nv: "find (range_violation c) ps = None" .
        then have "\<not> (\<exists>pv \<in> set ps. range_violation c pv)"
          by (simp add: find_None_Ball)
        then show ?thesis
          using nm nt by (auto simp: val Inr None no_missing no_mismatch nv)
      next
        case (Some q)
        obtain param min_val v max_val where q: "q = (param, min_val, v, max_val)"
          by (cases q)
        from check_ranges_violation [OF Inr [unfolded Some q]]
        have f: "find (range_violation c) ps = Some (param, v)"
          and rg: "parameter_ranges c param = Some (min_val, max_val)"
          by simp_all
        from find_Some_mem [OF f] have "\<exists>pv \<in> set ps. range_violation c pv" by blast
        then show ?thesis
          by (auto simp: val Inr Some q no_missing no_mismatch f rg)
      qed
    qed
  qed
qed

theorem validate_parameters_checks_witness:
  "validate_parameters level_command [(''value'', PFloat 1.5)] =
     Inr (False, Out_of_range ''value'' (PInt 0) (PFloat 1.5) (PInt 1)) \<and>
   range_comparable level_command (''value'', PFloat 1.5) \<and>
   (\<exists>pv \<in> set [(''value'', PFloat 1.5)]. range_violation level_command pv) \<and>
   validate_parameters pair_command [(''a'', PStr ''x''), (''b'', PInt 5)] = Inl TypeError \<and>
   (\<exists>pv \<in> set [(''a'', PStr ''x''), (''b'', PInt 5)]. \<not> range_comparable pair_command pv)"
proof -
  let ?ps = "[(''value'', PFloat 1.5)]"
  let ?qs = "[(''a'', PStr ''x''), (''b'', PInt 5)]"
  have r: "validate_parameters level_command ?ps =
      Inr (False, Out_of_range ''value'' (PInt 0) (PFloat 1.5) (PInt 1))"
    by (rule level_command_rejects)
  have cmp: "range_comparable level_command (''value'', PFloat 1.5)"
    by (auto simp: range_comparable_def level_command_fields in_range_def py_le_def)
  have nm: "\<not> (\<exists>param \<in> set (required_parameters level_command). missing_in ?ps param)"
    by (simp add: level_command_fields missing_in_def)
  have nt: "\<not> (\<exists>pv \<in> set ?ps. type_mismatch level_command pv)"
    by (simp add: level_command_fields type_mismatch_def)
  have v: "\<exists>pv \<in> set ?ps. range_violation level_command pv"
    using validate_parameters_checks [of level_command ?ps] r nm nt by blast
  have q: "validate_parameters pair_command ?qs = Inl TypeError"
    by (simp add: validate_parameters_def pair_command_fields in_range_def py_le_def)
  have i: "\<exists>pv \<in> set ?qs. \<not> range_comparable pair_command pv"
    using validate_parameters_checks [of pair_command ?qs] q by blast
  show ?thesis by (rule conjI r cmp v q i)+
qed

section \<open>Command: execution\<close>

lemma retried_attempts_rec:
  "i \<le> k \<Longrightarrow>
   retried_attempts c i k =
     Execution_logic i # Slept (retry_delay c) # retried_attempts c (i + 1) k"
  by (simp add: retried_attempts_def upto_rec1)

lemma retried_attempts_empty: "k < i \<Longrightarrow> retried_attempts c i k = []"
  by (simp add: retried_attempts_def)

text \<open>The retry loop from attempt \<open>i\<close> on, when attempt \<open>k\<close> is the first to complete.\<close>

lemma run_attempts_success:
  "action k = Completed \<Longrightarrow> \<forall>j. i \<le> j \<and> j < k \<longrightarrow> action j \<noteq> Completed \<Longrightarrow>
   i \<le> k \<Longrightarrow> k \<le> retry_count c - 1 \<Longrightarrow>
   run_attempts c dev ps action clock [i..retry_count c - 1] =
     (Some (True, Success_payload
        \<lparr> sr_command_id = command_id c, sr_device_id = device_id dev, sr_parameters = ps,
          sr_timestamp = clock k, sr_attempt = k + 1 \<rparr>),
      retried_attempts c i (k - 1) @ Execution_logic k #
      map (\<lambda>ob. Command_notified ob c ''success'' (Success_payload
        \<lparr> sr_command_id = command_id c, sr_device_id = device_id dev, sr_parameters = ps,
          sr_timestamp = clock k, sr_attempt = k + 1 \<rparr>)) (cmd_observers c))"
proof (induction "nat (k - i)" arbitrary: i)
  case 0
  then have ik: "i = k" by simp
  have l: "[k..retry_count c - 1] = k # [k + 1..retry_count c - 1]"
    using 0 by (simp add: upto_rec1)
  show ?case
    unfolding ik l using 0
    by (simp add: retried_attempts_empty command_notify_observers_def Let_def)
next
  case (Suc d)
  then have lt: "i < k" by simp
  with Suc.prems obtain e where e: "action i = Raised e"
    by (cases "action i") auto
  have l: "[i..retry_count c - 1] = i # [i + 1..retry_count c - 1]"
    using lt Suc.prems by (simp add: upto_rec1)
  have d: "d = nat (k - (i + 1))" using Suc.hyps(2) by simp
  have IH: "run_attempts c dev ps action clock [i + 1..retry_count c - 1] =
     (Some (True, Success_payload
        \<lparr> sr_command_id = command_id c, sr_device_id = device_id dev, sr_parameters = ps,
          sr_timestamp = clock k, sr_attempt = k + 1 \<rparr>),
      retried_attempts c (i + 1) (k - 1) @ Execution_logic k #
      map (\<lambda>ob. Command_notified ob c ''success'' (Success_payload
        \<lparr> sr_command_id = command_id c, sr_device_id = device_id dev, sr_parameters = ps,
          sr_timestamp = clock k, sr_attempt = k + 1 \<rparr>)) (cmd_observers c))"
    using Suc.prems lt by (intro Suc.hyps(1) [OF d]) auto
  have n: "retried_attempts c i (k - 1) =
      Execution_logic i # Slept (retry_delay c) # retried_attempts c (i + 1) (k - 1)"
    using lt by (simp add: retried_attempts_rec)
  show ?case
    unfolding l n using lt Suc.prems(4) by (simp add: e IH)
qed

text \<open>The retry loop from attempt \<open>i\<close> on, when no attempt completes.\<close>

lemma run_attempts_exhausted:
  "\<forall>j. i \<le> j \<and> j \<le> retry_count c - 1 \<longrightarrow> action j \<noteq> Completed \<Longrightarrow>
   i \<le> retry_count c - 1 \<Longrightarrow>
   \<exists>e. action (retry_count c - 1) = Raised e \<and>
     run_attempts c dev ps action clock [i..retry_count c - 1] =
     (Some (False, Error_payload
        \<lparr> er_error = e, er_command_id = command_id c, er_device_id = device_id dev,
          er_parameters = ps, er_timestamp = clock (retry_count c - 1),
          er_attempts = retry_count c \<rparr>),
      retried_attempts c i (retry_count c - 2) @ Execution_logic (retry_count c - 1) #
      map (\<lambda>ob. Command_notified ob c ''error'' (Error_payload
        \<lparr> er_error = e, er_command_id = command_id c, er_device_id = device_id dev,
          er_parameters = ps, er_timestamp = clock (retry_count c - 1),
          er_attempts = retry_count c \<rparr>)) (cmd_observers c))"
proof (induction "nat (retry_count c - 1 - i)" arbitrary: i)
  case 0
  then have ik: "i = retry_count c - 1" by simp
  from 0 obtain e where e: "action (retry_count c - 1) = Raised e"
    by (cases "action (retry_count c - 1)") auto
  have l: "[retry_count c - 1..retry_count c - 1] = [retry_count c - 1]"
    by (simp add: upto_rec1)
  show ?case
    unfolding ik l
    by (simp add: e retried_attempts_empty command_notify_observers_def Let_def)
next
  case (Suc d)
  then have lt: "i < retry_count c - 1" by simp
  with Suc.prems obtain e0 where e0: "action i = Raised e0"
    by (cases "action i") auto
  have l: "[i..retry_count c - 1] = i # [i + 1..retry_count c - 1]"
    using lt by (simp add: upto_rec1)
  have d: "d = nat (retry_count c - 1 - (i + 1))" using Suc.hyps(2) by simp
  have "\<exists>e. action (retry_count c - 1) = Raised e \<and>
     run_attempts c dev ps action clock [i + 1..retry_count c - 1] =
     (Some (False, Error_payload
        \<lparr> er_error = e, er_command_id = command_id c, er_device_id = device_id dev,
          er_parameters = ps, er_timestamp = clock (retry_count c - 1),
          er_attempts = retry_count c \<rparr>),
      retried_attempts c (i + 1) (retry_count c - 2) @ Execution_logic (retry_count c - 1) #
      map (\<lambda>ob. Command_notified ob c ''error'' (Error_payload
        \<lparr> er_error = e, er_command_id = command_id c, er_device_id = device_id dev,
          er_parameters = ps, er_timestamp = clock (retry_count c - 1),
          er_attempts = retry_count c \<rparr>)) (cmd_observers c))"
    using Suc.prems lt by (intro Suc.hyps(1) [OF d]) auto
  then obtain e where e: "action (retry_count c - 1) = Raised e"
    and IH: "run_attempts c dev ps action clock [i + 1..retry_count c - 1] =
     (Some (False, Error_payload
        \<lparr> er_error = e, er_command_id = command_id c, er_device_id = device_id dev,
          er_parameters = ps, er_timestamp = clock (retry_count c - 1),
          er_attempts = retry_count c \<rparr>),
      retried_attempts c (i + 1) (retry_count c - 2) @ Execution_logic (retry_count c - 1) #
      map (\<lambda>ob. Command_notified ob c ''error'' (Error_payload
        \<lparr> er_error = e, er_command_id = command_id c, er_device_id = device_id dev,
          er_parameters = ps, er_timestamp = clock (retry_count c - 1),
          er_attempts = retry_count c \<rparr>)) (cmd_observers c))"
    by blast
  have n: "retried_attempts c i (retry_count c - 2) =
      Execution_logic i # Slept (retry_delay c) #
      retried_attempts c (i + 1) (retry_count c - 2)"
    using lt by (simp add: retried_attempts_rec)
  show ?case
    unfolding l n using lt by (simp add: e0 e IH)
qed

lemma execute_valid:
  "validate_parameters c (case ps of None \<Rightarrow> [] | Some p \<Rightarrow> p) = Inr (True, msg) \<Longrightarrow>
   run_attempts c dev ps action clock [0..retry_count c - 1] = (r, effs) \<Longrightarrow>
   execute c dev ps action clock = Inr (r, c, dev, effs)"
  by (simp add: execute_def)

text \<open>
  C5. When \<open>validate_parameters\<close> returns false with a message, \<open>execute\<close> returns
  \<open>(false, {"error": message})\<close>, the command and the device are as before (so is
  \<open>command_history\<close>), and the effects of the call are one "validation_error" call to
  each observer and nothing else: the execution logic is not run and there is no sleep,
  whatever the action would do.
\<close>

theorem execute_validation_failure:
  assumes "validate_parameters c (case ps of None \<Rightarrow> [] | Some p \<Rightarrow> p) = Inr (False, msg)"
  shows "execute c dev ps action clock =
           Inr (Some (False, Validation_failure msg), c, dev,
                map (\<lambda>ob. Command_notified ob c ''validation_error'' (Validation_failure msg))
                  (cmd_observers c))"
  using assms by (simp add: execute_def command_notify_observers_def)

theorem execute_validation_failure_witness:
  "validate_parameters level_command [(''value'', PFloat 1.5)] =
     Inr (False, Out_of_range ''value'' (PInt 0) (PFloat 1.5) (PInt 1)) \<and>
   execute level_command online_device (Some [(''value'', PFloat 1.5)])
     (\<lambda>attempt. Completed) real_of_int =
     Inr (Some (False,
            Validation_failure (Out_of_range ''value'' (PInt 0) (PFloat 1.5) (PInt 1))),
          level_command, online_device,
          [Command_notified 5 level_command ''validation_error''
             (Validation_failure (Out_of_range ''value'' (PInt 0) (PFloat 1.5) (PInt 1)))])"
proof -
  have h: "validate_parameters level_command
      (case Some [(''value'', PFloat 1.5)] of None \<Rightarrow> [] | Some p \<Rightarrow> p) =
      Inr (False, Out_of_range ''value'' (PInt 0) (PFloat 1.5) (PInt 1))"
    by (simp only: option.case level_command_rejects)
  have "execute level_command online_device (Some [(''value'', PFloat 1.5)])
     (\<lambda>attempt. Completed) real_of_int =
     Inr (Some (False,
            Validation_failure (Out_of_range ''value'' (PInt 0) (PFloat 1.5) (PInt 1))),
          level_command, online_device,
          map (\<lambda>ob. Command_notified ob level_command ''validation_error''
                 (Validation_failure (Out_of_range ''value'' (PInt 0) (PFloat 1.5) (PInt 1))))
            (cmd_observers level_command))"
    by (rule execute_validation_failure [OF h])
  then have e: "execute level_command online_device (Some [(''value'', PFloat 1.5)])
     (\<lambda>attempt. Completed) real_of_int =
     Inr (Some (False,
            Validation_failure (Out_of_range ''value'' (PInt 0) (PFloat 1.5) (PInt 1))),
          level_command, online_device,
          [Command_notified 5 level_command ''validation_error''
             (Validation_failure (Out_of_range ''value'' (PInt 0) (PFloat 1.5) (PInt 1)))])"
    by (simp only: level_command_fields list.map)
  show ?thesis by (rule conjI level_command_rejects e)+
qed

text \<open>
  C6. Let the parameters be valid and let \<open>action\<close> give the outcome of the execution
  logic in each attempt (attempts are numbered from 1 here, the loop variable from 0).
  If attempt \<open>k\<close>, with \<open>1 \<le> k \<le> retry_count\<close>, is the first to complete, \<open>execute\<close>
  returns true with a result whose \<open>attempt\<close> is \<open>k\<close> and notifies each observer with
  "success". If \<open>retry_count \<ge> 1\<close> and no attempt completes, it returns false with an
  error result whose \<open>attempts\<close> is \<open>retry_count\<close> and whose \<open>error\<close> is that of the
  last attempt, and notifies each observer with "error". In both cases every attempt
  before the last one made is followed by one sleep of \<open>retry_delay\<close>, the last one by
  none, and the command and the device are as before.
\<close>

theorem execute_retries:
  assumes "validate_parameters c (case ps of None \<Rightarrow> [] | Some p \<Rightarrow> p) = Inr (True, msg)"
  shows "(1 \<le> k \<and> k \<le> retry_count c \<and> action (k - 1) = Completed \<and>
          (\<forall>j. 0 \<le> j \<and> j < k - 1 \<longrightarrow> action j \<noteq> Completed) \<longrightarrow>
            execute c dev ps action clock =
              Inr (Some (True, Success_payload
                     \<lparr> sr_command_id = command_id c, sr_device_id = device_id dev,
                       sr_parameters = ps, sr_timestamp = clock (k - 1),
                       sr_attempt = k \<rparr>),
                   c, dev,
                   retried_attempts c 0 (k - 2) @ Execution_logic (k - 1) #
                   map (\<lambda>ob. Command_notified ob c ''success'' (Success_payload
                     \<lparr> sr_command_id = command_id c, sr_device_id = device_id dev,
                       sr_parameters = ps, sr_timestamp = clock (k - 1),
                       sr_attempt = k \<rparr>)) (cmd_observers c))) \<and>
         (1 \<le> retry_count c \<and>
          (\<forall>j. 0 \<le> j \<and> j < retry_count c \<longrightarrow> action j \<noteq> Completed) \<longrightarrow>
            (\<exists>e. action (retry_count c - 1) = Raised e \<and>
               execute c dev ps action clock =
                 Inr (Some (False, Error_payload
                        \<lparr> er_error = e, er_command_id = command_id c,
                          er_device_id = device_id dev, er_parameters = ps,
                          er_timestamp = clock (retry_count c - 1),
                          er_attempts = retry_count c \<rparr>),
                      c, dev,
                      retried_attempts c 0 (retry_count c - 2) @
                      Execution_logic (retry_count c - 1) #
                      map (\<lambda>ob. Command_notified ob c ''error'' (Error_payload
                        \<lparr> er_error = e, er_command_id = command_id c,
                          er_device_id = device_id dev, er_parameters = ps,
                          er_timestamp = clock (retry_count c - 1),
                          er_attempts = retry_count c \<rparr>)) (cmd_observers c))))"
proof (intro conjI impI)
  assume a: "1 \<le> k \<and> k \<le> retry_count c \<and> action (k - 1) = Completed \<and>
          (\<forall>j. 0 \<le> j \<and> j < k - 1 \<longrightarrow> action j \<noteq> Completed)"
  then have "action (k - 1) = Completed"
    and "\<forall>j. 0 \<le> j \<and> j < k - 1 \<longrightarrow> action j \<noteq> Completed"
    and "0 \<le> k - 1" and "k - 1 \<le> retry_count c - 1"
    by simp_all
  from run_attempts_success [OF this, of dev ps clock]
  show "execute c dev ps action clock =
              Inr (Some (True, Success_payload
                     \<lparr> sr_command_id = command_id c, sr_device_id = device_id dev,
                       sr_parameters = ps, sr_timestamp = clock (k - 1),
                       sr_attempt = k \<rparr>),
                   c, dev,
                   retried_attempts c 0 (k - 2) @ Execution_logic (k - 1) #
                   map (\<lambda>ob. Command_notified ob c ''success'' (Success_payload
                     \<lparr> sr_command_id = command_id c, sr_device_id = device_id dev,
                       sr_parameters = ps, sr_timestamp = clock (k - 1),
                       sr_attempt = k \<rparr>)) (cmd_observers c))"
    by (simp add: execute_valid [OF assms])
next
  assume b: "1 \<le> retry_count c \<and>
          (\<forall>j. 0 \<le> j \<and> j < retry_count c \<longrightarrow> action j \<noteq> Completed)"
  then have "\<forall>j. 0 \<le> j \<and> j \<le> retry_count c - 1 \<longrightarrow> action j \<noteq> Completed"
    and "0 \<le> retry_count c - 1"
    by simp_all
  from run_attempts_exhausted [OF this, of dev ps clock]
  show "\<exists>e. action (retry_count c - 1) = Raised e \<and>
               execute c dev ps action clock =
                 Inr (Some (False, Error_payload
                        \<lparr> er_error = e, er_command_id = command_id c,
                          er_device_id = device_id dev, er_parameters = ps,
                          er_timestamp = clock (retry_count c - 1),
                          er_attempts = retry_count c \<rparr>),
                      c, dev,
                      retried_attempts c 0 (retry_count c - 2) @
                      Execution_logic (retry_count c - 1) #
                      map (\<lambda>ob. Command_notified ob c ''error'' (Error_payload
                        \<lparr> er_error = e, er_command_id = command_id c,
                          er_device_id = device_id dev, er_parameters = ps,
                          er_timestamp = clock (retry_count c - 1),
                          er_attempts = retry_count c \<rparr>)) (cmd_observers c))"
    by (auto simp: execute_valid [OF assms])
qed

lemma level_command_retried: "retried_attempts level_command 0 1 =
    [Execution_logic 0, Slept 1, Execution_logic 1, Slept 1]"
  by (simp add: retried_attempts_rec retried_attempts_empty level_command_fields)

theorem execute_retries_witness:
  "validate_parameters level_command [(''value'', PFloat 0.5)] = Inr (True, Parameters_valid) \<and>
   execute level_command online_device (Some [(''value'', PFloat 0.5)])
     (\<lambda>attempt. if attempt = 2 then Completed else Raised ''busy'') real_of_int =
     Inr (Some (True, Success_payload
            \<lparr> sr_command_id = ''set_level'', sr_device_id = ''dev1'',
              sr_parameters = Some [(''value'', PFloat 0.5)], sr_timestamp = 2,
              sr_attempt = 3 \<rparr>),
          level_command, online_device,
          [Execution_logic 0, Slept 1, Execution_logic 1, Slept 1, Execution_logic 2,
           Command_notified 5 level_command ''success'' (Success_payload
             \<lparr> sr_command_id = ''set_level'', sr_device_id = ''dev1'',
               sr_parameters = Some [(''value'', PFloat 0.5)], sr_timestamp = 2,
               sr_attempt = 3 \<rparr>)]) \<and>
   execute level_command online_device (Some [(''value'', PFloat 0.5)])
     (\<lambda>attempt. Raised ''busy'') real_of_int =
     Inr (Some (False, Error_payload
            \<lparr> er_error = ''busy'', er_command_id = ''set_level'', er_device_id = ''dev1'',
              er_parameters = Some [(''value'', PFloat 0.5)], er_timestamp = 2,
              er_attempts = 3 \<rparr>),
          level_command, online_device,
          [Execution_logic 0, Slept 1, Execution_logic 1, Slept 1, Execution_logic 2,
           Command_notified 5 level_command ''error'' (Error_payload
             \<lparr> er_error = ''busy'', er_command_id = ''set_level'', er_device_id = ''dev1'',
               er_parameters = Some [(''value'', PFloat 0.5)], er_timestamp = 2,
               er_attempts = 3 \<rparr>)])"
proof -
  let ?ps = "Some [(''value'', PFloat 0.5)]"
  let ?a1 = "\<lambda>attempt::int. if attempt = 2 then Completed else Raised ''busy''"
  let ?a2 = "\<lambda>attempt::int. Raised ''busy''"
  have v: "validate_parameters level_command [(''value'', PFloat 0.5)] =
      Inr (True, Parameters_valid)"
    by (rule level_command_accepts)
  have h: "validate_parameters level_command (case ?ps of None \<Rightarrow> [] | Some p \<Rightarrow> p) =
      Inr (True, Parameters_valid)"
    by (simp only: option.case level_command_accepts)
  have p1: "1 \<le> (3::int) \<and> 3 \<le> retry_count level_command \<and> ?a1 (3 - 1) = Completed \<and>
      (\<forall>j. 0 \<le> j \<and> j < 3 - 1 \<longrightarrow> ?a1 j \<noteq> Completed)"
    by (simp add: level_command_fields)
  have p2: "1 \<le> retry_count level_command \<and>
      (\<forall>j. 0 \<le> j \<and> j < retry_count level_command \<longrightarrow> ?a2 j \<noteq> Completed)"
    by (simp add: level_command_fields)
  have e1: "execute level_command online_device ?ps ?a1 real_of_int =
     Inr (Some (True, Success_payload
            \<lparr> sr_command_id = ''set_level'', sr_device_id = ''dev1'',
              sr_parameters = ?ps, sr_timestamp = 2, sr_attempt = 3 \<rparr>),
          level_command, online_device,
          [Execution_logic 0, Slept 1, Execution_logic 1, Slept 1, Execution_logic 2,
           Command_notified 5 level_command ''success'' (Success_payload
             \<lparr> sr_command_id = ''set_level'', sr_device_id = ''dev1'',
               sr_parameters = ?ps, sr_timestamp = 2, sr_attempt = 3 \<rparr>)])"
    using execute_retries [OF h, of 3 ?a1 online_device real_of_int] p1
    by (simp add: level_command_fields online_device_fields level_command_retried)
  have e2: "execute level_command online_device ?ps ?a2 real_of_int =
     Inr (Some (False, Error_payload
            \<lparr> er_error = ''busy'', er_command_id = ''set_level'', er_device_id = ''dev1'',
              er_parameters = ?ps, er_timestamp = 2, er_attempts = 3 \<rparr>),
          level_command, online_device,
          [Execution_logic 0, Slept 1, Execution_logic 1, Slept 1, Execution_logic 2,
           Command_notified 5 level_command ''error'' (Error_payload
             \<lparr> er_error = ''busy'', er_command_id = ''set_level'', er_device_id = ''dev1'',
               er_parameters = ?ps, er_timestamp = 2, er_attempts = 3 \<rparr>)])"
    using execute_retries [OF h, of 3 ?a2 online_device real_of_int] p2
    by (simp add: level_command_fields online_device_fields level_command_retried)
  show ?thesis by (rule conjI v e1 e2)+
qed

end
